theory Spec2Isabelle
  imports Main
begin

section \<open>Python values, exceptions and the primitives used by \<open>near_api/account.py\<close>\<close>

text \<open>
  The values that cross the RPC boundary are parsed JSON: \<open>None\<close>, booleans, integers,
  strings, lists and dictionaries with string keys. A Python \<open>str\<close> is a sequence of
  Unicode code points, so it is a list of naturals here (\<open>chr\<close> can produce code points
  that do not fit a byte). A \<open>bytes\<close> object is a list of its byte values. A dictionary
  keeps its insertion order and is an association list. JSON floating point numbers are
  left out: the fields the code reads are integers, strings, lists and dictionaries.
\<close>

type_synonym pystr = "nat list"
type_synonym bytes = "nat list"

datatype pyval =
    PNone
  | PBool bool
  | PInt int
  | PStr pystr
  | PList "pyval list"
  | PDict "(pystr \<times> pyval) list"

text \<open>A string literal of the source, as code points.\<close>

definition lit :: "string \<Rightarrow> pystr" where
  "lit s = map of_char s"

text \<open>
  The exceptions of the module (\<open>TransactionError\<close>, \<open>ViewFunctionError\<close>), the built-in
  exceptions the statements of the module can raise on dynamic values, and \<open>External\<close>
  for whatever a collaborator (provider, signer, \<open>base58\<close>, \<open>json\<close>) raises.
\<close>

datatype exc =
    TransactionError pyval
  | ViewFunctionError pyval
  | KeyError pystr
  | TypeError
  | AttributeError
  | ValueError
  | OverflowError
  | UnicodeEncodeError
  | External pystr

text \<open>\<open>d[k]\<close> with a string key \<open>k\<close>.\<close>

fun py_getitem :: "pyval \<Rightarrow> pystr \<Rightarrow> exc + pyval" where
  "py_getitem (PDict d) k = (case map_of d k of None \<Rightarrow> Inl (KeyError k) | Some v \<Rightarrow> Inr v)"
| "py_getitem _ k = Inl TypeError"

text \<open>
  \<open>d[k] = v\<close> with a string key: an existing key keeps its position, a new key goes to
  the end.
\<close>

fun dict_update :: "pystr \<Rightarrow> pyval \<Rightarrow> (pystr \<times> pyval) list \<Rightarrow> (pystr \<times> pyval) list" where
  "dict_update k v [] = [(k, v)]"
| "dict_update k v (p # ps) = (if fst p = k then (k, v) # ps else p # dict_update k v ps)"

fun py_setitem :: "pyval \<Rightarrow> pystr \<Rightarrow> pyval \<Rightarrow> exc + pyval" where
  "py_setitem (PDict d) k v = Inr (PDict (dict_update k v d))"
| "py_setitem _ k v = Inl TypeError"

text \<open>\<open>s in t\<close> for two strings: \<open>s\<close> occurs in \<open>t\<close> as a contiguous run.\<close>

fun is_prefix :: "pystr \<Rightarrow> pystr \<Rightarrow> bool" where
  "is_prefix [] ys = True"
| "is_prefix (x # xs) [] = False"
| "is_prefix (x # xs) (y # ys) = (x = y \<and> is_prefix xs ys)"

fun is_substring :: "pystr \<Rightarrow> pystr \<Rightarrow> bool" where
  "is_substring xs [] = (xs = [])"
| "is_substring xs (y # ys) = (is_prefix xs (y # ys) \<or> is_substring xs ys)"

text \<open>\<open>k in x\<close> for a string \<open>k\<close>: key of a dictionary, element of a list, substring of a string.\<close>

fun py_contains :: "pystr \<Rightarrow> pyval \<Rightarrow> exc + bool" where
  "py_contains k (PDict d) = Inr (k \<in> set (map fst d))"
| "py_contains k (PList xs) = Inr (PStr k \<in> set xs)"
| "py_contains k (PStr s) = Inr (is_substring k s)"
| "py_contains k _ = Inl TypeError"

text \<open>
  Iteration (\<open>for x in v\<close>): the elements of a list, the keys of a dictionary, the
  one-character strings of a string.
\<close>

fun py_iter :: "pyval \<Rightarrow> exc + pyval list" where
  "py_iter (PList xs) = Inr xs"
| "py_iter (PDict d) = Inr (map (\<lambda>p. PStr (fst p)) d)"
| "py_iter (PStr s) = Inr (map (\<lambda>c. PStr [c]) s)"
| "py_iter _ = Inl TypeError"

text \<open>\<open>len(v)\<close>.\<close>

fun py_len :: "pyval \<Rightarrow> exc + nat" where
  "py_len (PList xs) = Inr (length xs)"
| "py_len (PDict d) = Inr (length d)"
| "py_len (PStr s) = Inr (length s)"
| "py_len _ = Inl TypeError"

text \<open>\<open>v + 1\<close> as \<open>v += 1\<close> computes it: integers are unbounded, \<open>bool\<close> is an integer.\<close>

fun py_add_one :: "pyval \<Rightarrow> exc + pyval" where
  "py_add_one (PInt n) = Inr (PInt (n + 1))"
| "py_add_one (PBool b) = Inr (PInt ((if b then 1 else 0) + 1))"
| "py_add_one _ = Inl TypeError"

text \<open>
  \<open>chr(x)\<close>: the one-character string of a code point below \<open>0x110000\<close>. The argument
  is first converted to a C \<open>int\<close> of 32 bits, which overflows outside that range.
\<close>

fun py_chr :: "pyval \<Rightarrow> exc + pystr" where
  "py_chr (PInt x) =
     (if x < - 2147483648 \<or> 2147483647 < x then Inl OverflowError
      else if 0 \<le> x \<and> x < 0x110000 then Inr [nat x]
      else Inl ValueError)"
| "py_chr (PBool b) = Inr [if b then 1 else 0]"
| "py_chr _ = Inl TypeError"

text \<open>\<open>''.join([chr(x) for x in xs])\<close>: the first failing \<open>chr\<close> raises.\<close>

fun join_chr :: "pyval list \<Rightarrow> exc + pystr" where
  "join_chr [] = Inr []"
| "join_chr (x # xs) =
     (case py_chr x of
        Inl e \<Rightarrow> Inl e
      | Inr c \<Rightarrow> (case join_chr xs of Inl e \<Rightarrow> Inl e | Inr s \<Rightarrow> Inr (c @ s)))"

text \<open>
  \<open>s.encode('utf8')\<close> on a string: one to four bytes per code point; a surrogate
  (\<open>0xD800\<close> to \<open>0xDFFF\<close>) cannot be encoded. On anything else there is no \<open>encode\<close>.
\<close>

definition utf8_cp :: "nat \<Rightarrow> exc + bytes" where
  "utf8_cp c =
     (if c < 0x80 then Inr [c]
      else if c < 0x800 then Inr [0xC0 + c div 64, 0x80 + c mod 64]
      else if c < 0x10000 then
        (if 0xD800 \<le> c \<and> c \<le> 0xDFFF then Inl UnicodeEncodeError
         else Inr [0xE0 + c div 4096, 0x80 + (c div 64) mod 64, 0x80 + c mod 64])
      else if c < 0x110000 then
        Inr [0xF0 + c div 262144, 0x80 + (c div 4096) mod 64, 0x80 + (c div 64) mod 64,
             0x80 + c mod 64]
      else Inl UnicodeEncodeError)"

fun utf8 :: "pystr \<Rightarrow> exc + bytes" where
  "utf8 [] = Inr []"
| "utf8 (c # cs) =
     (case utf8_cp c of
        Inl e \<Rightarrow> Inl e
      | Inr b \<Rightarrow> (case utf8 cs of Inl e \<Rightarrow> Inl e | Inr bs \<Rightarrow> Inr (b @ bs)))"

fun py_encode_utf8 :: "pyval \<Rightarrow> exc + bytes" where
  "py_encode_utf8 (PStr s) = utf8 s"
| "py_encode_utf8 _ = Inl AttributeError"

section \<open>The collaborators and the account\<close>

text \<open>
  Every call that leaves the module, every printed line and the store into the nonce is
  recorded, in the order it happens, in a trace. The signer and the action list are
  opaque to the module: they are type parameters.
\<close>

datatype ('sg, 'act) event =
    NonceStore pyval
  | GetStatus
  | B58Decode bytes
  | SignAndSerialize pystr pyval 'act bytes 'sg
  | SendTxAndWait bytes int
  | SendTx bytes
  | Print "pyval list"
  | GetAccount pystr
  | JsonDumps pyval
  | ViewCall pyval pyval bytes
  | JsonLoads pystr

text \<open>
  The provider (\<open>near_api.providers.JsonProvider\<close>) is outside the module. Each of its
  methods is a function of the trace so far and of the arguments, so that the remote node
  may answer two equal requests differently; it returns a value or raises.
\<close>

record ('sg, 'act) JsonProvider =
  get_account :: "('sg, 'act) event list \<Rightarrow> pystr \<Rightarrow> exc + pyval"
  get_status :: "('sg, 'act) event list \<Rightarrow> exc + pyval"
  send_tx_and_wait :: "('sg, 'act) event list \<Rightarrow> bytes \<Rightarrow> int \<Rightarrow> exc + pyval"
  send_tx :: "('sg, 'act) event list \<Rightarrow> bytes \<Rightarrow> exc + pyval"
  view_call :: "('sg, 'act) event list \<Rightarrow> pyval \<Rightarrow> pyval \<Rightarrow> bytes \<Rightarrow> exc + pyval"

text \<open>
  The imported modules: \<open>transactions.sign_and_serialize_transaction\<close> (signing need not
  be deterministic, so it sees the trace too), \<open>base58.b58decode\<close>, \<open>json.dumps\<close>,
  \<open>json.loads\<close>, and the text Python's formatting gives a value that is not a string.
\<close>

record ('sg, 'act) modules =
  sign_and_serialize_transaction ::
    "('sg, 'act) event list \<Rightarrow> pystr \<Rightarrow> pyval \<Rightarrow> 'act \<Rightarrow> bytes \<Rightarrow> 'sg \<Rightarrow> exc + bytes"
  b58decode :: "bytes \<Rightarrow> exc + bytes"
  json_dumps :: "pyval \<Rightarrow> exc + pystr"
  json_loads :: "pystr \<Rightarrow> exc + pyval"
  repr_of :: "pyval \<Rightarrow> pystr"

text \<open>
  The fields of \<open>class Account\<close>: \<open>_provider\<close>, \<open>_signer\<close>, \<open>_account_id\<close>, \<open>_account\<close>
  (the cached account state, the property \<open>state\<close>) and \<open>_access_key\<close>.
\<close>

record ('sg, 'act) Account =
  provider :: "('sg, 'act) JsonProvider"
  signer :: 'sg
  account_id :: pystr
  account :: pyval
  access_key :: pyval

section \<open>Transaction assembly\<close>

text \<open>
  Line 35 and line 63, \<open>self._access_key["nonce"] += 1\<close>: read the entry, add one,
  store the sum.
\<close>

definition increment_nonce ::
  "('sg, 'act) Account \<Rightarrow> ('sg, 'act) event list \<Rightarrow>
   (exc + unit) \<times> ('sg, 'act) Account \<times> ('sg, 'act) event list" where
  "increment_nonce self tr =
     (case py_getitem (access_key self) (lit ''nonce'') of
        Inl e \<Rightarrow> (Inl e, self, tr)
      | Inr v \<Rightarrow>
          (case py_add_one v of
             Inl e \<Rightarrow> (Inl e, self, tr)
           | Inr v' \<Rightarrow>
               (case py_setitem (access_key self) (lit ''nonce'') v' of
                  Inl e \<Rightarrow> (Inl e, self, tr)
                | Inr ak \<Rightarrow> (Inr (), self\<lparr>access_key := ak\<rparr>, tr @ [NonceStore v']))))"

text \<open>
  Lines 36 to 37 and 64 to 65: \<open>get_status()['sync_info']['latest_block_hash']\<close>, then
  \<open>base58.b58decode(block_hash.encode('utf8'))\<close>.
\<close>

definition fetch_block_hash ::
  "('sg, 'act) modules \<Rightarrow> ('sg, 'act) Account \<Rightarrow> ('sg, 'act) event list \<Rightarrow>
   (exc + bytes) \<times> ('sg, 'act) event list" where
  "fetch_block_hash lib self tr =
     (case get_status (provider self) tr of
        Inl e \<Rightarrow> (Inl e, tr @ [GetStatus])
      | Inr st \<Rightarrow>
          (case py_getitem st (lit ''sync_info'') of
             Inl e \<Rightarrow> (Inl e, tr @ [GetStatus])
           | Inr si \<Rightarrow>
               (case py_getitem si (lit ''latest_block_hash'') of
                  Inl e \<Rightarrow> (Inl e, tr @ [GetStatus])
                | Inr h \<Rightarrow>
                    (case py_encode_utf8 h of
                       Inl e \<Rightarrow> (Inl e, tr @ [GetStatus])
                     | Inr bs \<Rightarrow> (b58decode lib bs, tr @ [GetStatus, B58Decode bs])))))"

text \<open>
  Lines 35 to 39 and 63 to 67, which are the same text in both submission methods:
  the increment, the block hash, and the call of \<open>sign_and_serialize_transaction\<close> with
  \<open>self._access_key["nonce"]\<close> read again.
\<close>

definition sign_tx ::
  "('sg, 'act) modules \<Rightarrow> ('sg, 'act) Account \<Rightarrow> ('sg, 'act) event list \<Rightarrow> pystr \<Rightarrow> 'act \<Rightarrow>
   (exc + bytes) \<times> ('sg, 'act) Account \<times> ('sg, 'act) event list" where
  "sign_tx lib self tr receiver_id actions =
     (case increment_nonce self tr of
        (Inl e, self1, tr1) \<Rightarrow> (Inl e, self1, tr1)
      | (Inr u, self1, tr1) \<Rightarrow>
          (case fetch_block_hash lib self1 tr1 of
             (Inl e, tr2) \<Rightarrow> (Inl e, self1, tr2)
           | (Inr block_hash, tr2) \<Rightarrow>
               (case py_getitem (access_key self1) (lit ''nonce'') of
                  Inl e \<Rightarrow> (Inl e, self1, tr2)
                | Inr n \<Rightarrow>
                    (sign_and_serialize_transaction lib tr2 receiver_id n actions block_hash
                       (signer self1),
                     self1,
                     tr2 @ [SignAndSerialize receiver_id n actions block_hash (signer self1)]))))"

section \<open>Synchronous submission\<close>

text \<open>Line 43: \<open>print("Log:", log, flush=True)\<close>.\<close>

definition print_log :: "pyval \<Rightarrow> ('sg, 'act) event" where
  "print_log log = Print [PStr (lit ''Log:''), log]"

text \<open>Line 42: the iteration over \<open>outcome['outcome']['logs']\<close>.\<close>

definition outcome_logs :: "pyval \<Rightarrow> exc + pyval list" where
  "outcome_logs outcome =
     (case py_getitem outcome (lit ''outcome'') of
        Inl e \<Rightarrow> Inl e
      | Inr oc \<Rightarrow> (case py_getitem oc (lit ''logs'') of Inl e \<Rightarrow> Inl e | Inr l \<Rightarrow> py_iter l))"

text \<open>Lines 41 to 43 for the outcomes of one iterable: the first failure ends the loop.\<close>

fun log_outcomes ::
  "pyval list \<Rightarrow> ('sg, 'act) event list \<Rightarrow> exc option \<times> ('sg, 'act) event list" where
  "log_outcomes [] tr = (None, tr)"
| "log_outcomes (outcome # rest) tr =
     (case outcome_logs outcome of
        Inl e \<Rightarrow> (Some e, tr)
      | Inr logs \<Rightarrow> log_outcomes rest (tr @ map print_log logs))"

text \<open>
  Lines 41 to 43: both subscripts are evaluated before the loop starts;
  \<open>itertools.chain\<close> asks the second argument for its elements only when the first is
  exhausted.
\<close>

definition surface_logs ::
  "pyval \<Rightarrow> ('sg, 'act) event list \<Rightarrow> exc option \<times> ('sg, 'act) event list" where
  "surface_logs result tr =
     (case py_getitem result (lit ''transaction_outcome'') of
        Inl e \<Rightarrow> (Some e, tr)
      | Inr t \<Rightarrow>
          (case py_getitem result (lit ''receipts_outcome'') of
             Inl e \<Rightarrow> (Some e, tr)
           | Inr r \<Rightarrow>
               (case log_outcomes [t] tr of
                  (Some e, tr1) \<Rightarrow> (Some e, tr1)
                | (None, tr1) \<Rightarrow>
                    (case py_iter r of
                       Inl e \<Rightarrow> (Some e, tr1)
                     | Inr rs \<Rightarrow> log_outcomes rs tr1))))"

text \<open>Lines 44 to 46: the test of \<open>result['status']\<close>.\<close>

definition classify :: "pyval \<Rightarrow> exc + pyval" where
  "classify result =
     (case py_getitem result (lit ''status'') of
        Inl e \<Rightarrow> Inl e
      | Inr st \<Rightarrow>
          (case py_contains (lit ''Failure'') st of
             Inl e \<Rightarrow> Inl e
           | Inr True \<Rightarrow>
               (case py_getitem st (lit ''Failure'') of
                  Inl e \<Rightarrow> Inl e
                | Inr f \<Rightarrow> Inl (TransactionError f))
           | Inr False \<Rightarrow> Inr result))"

text \<open>\<open>Account._sign_and_submit_tx\<close> (lines 34 to 46).\<close>

definition sign_and_submit_tx ::
  "('sg, 'act) modules \<Rightarrow> ('sg, 'act) Account \<Rightarrow> ('sg, 'act) event list \<Rightarrow> pystr \<Rightarrow> 'act \<Rightarrow>
   (exc + pyval) \<times> ('sg, 'act) Account \<times> ('sg, 'act) event list" where
  "sign_and_submit_tx lib self tr receiver_id actions =
     (case sign_tx lib self tr receiver_id actions of
        (Inl e, self1, tr1) \<Rightarrow> (Inl e, self1, tr1)
      | (Inr serialized_tx, self1, tr1) \<Rightarrow>
          (case send_tx_and_wait (provider self1) tr1 serialized_tx 10 of
             Inl e \<Rightarrow> (Inl e, self1, tr1 @ [SendTxAndWait serialized_tx 10])
           | Inr result \<Rightarrow>
               (case surface_logs result (tr1 @ [SendTxAndWait serialized_tx 10]) of
                  (Some e, tr2) \<Rightarrow> (Inl e, self1, tr2)
                | (None, tr2) \<Rightarrow> (classify result, self1, tr2))))"

section \<open>Asynchronous submission\<close>

text \<open>
  Line 71: the text of \<open>f'... tx_hash is "{result}"'\<close>. A string is inserted as it is,
  any other value in the form Python prints it; 34 is the code point of the double quote.
\<close>

definition format_value :: "('sg, 'act) modules \<Rightarrow> pyval \<Rightarrow> pystr" where
  "format_value lib v = (case v of PStr s \<Rightarrow> s | _ \<Rightarrow> repr_of lib v)"

definition unable_message :: "('sg, 'act) modules \<Rightarrow> pyval \<Rightarrow> pyval" where
  "unable_message lib result =
     PStr (lit ''Unable to sign and submit transaction. tx_hash is '' @ [34]
           @ format_value lib result @ [34])"

text \<open>\<open>Account._sign_and_submit_tx_async\<close> (lines 48 to 72).\<close>

definition sign_and_submit_tx_async ::
  "('sg, 'act) modules \<Rightarrow> ('sg, 'act) Account \<Rightarrow> ('sg, 'act) event list \<Rightarrow> pystr \<Rightarrow> 'act \<Rightarrow>
   (exc + pyval) \<times> ('sg, 'act) Account \<times> ('sg, 'act) event list" where
  "sign_and_submit_tx_async lib self tr receiver_id actions =
     (case sign_tx lib self tr receiver_id actions of
        (Inl e, self1, tr1) \<Rightarrow> (Inl e, self1, tr1)
      | (Inr serialized_tx, self1, tr1) \<Rightarrow>
          (case send_tx (provider self1) tr1 serialized_tx of
             Inl e \<Rightarrow> (Inl e, self1, tr1 @ [SendTx serialized_tx])
           | Inr result \<Rightarrow>
               (case py_len result of
                  Inl e \<Rightarrow> (Inl e, self1, tr1 @ [SendTx serialized_tx])
                | Inr n \<Rightarrow>
                    (if n = 44
                     then (Inl (TransactionError (unable_message lib result)), self1,
                           tr1 @ [SendTx serialized_tx])
                     else (Inr result, self1, tr1 @ [SendTx serialized_tx])))))"

section \<open>Refreshing the cached state, and view calls\<close>

text \<open>\<open>Account.fetch_state\<close> (lines 94 to 96).\<close>

definition fetch_state ::
  "('sg, 'act) Account \<Rightarrow> ('sg, 'act) event list \<Rightarrow>
   (exc + unit) \<times> ('sg, 'act) Account \<times> ('sg, 'act) event list" where
  "fetch_state self tr =
     (case get_account (provider self) tr (account_id self) of
        Inl e \<Rightarrow> (Inl e, self, tr @ [GetAccount (account_id self)])
      | Inr a \<Rightarrow> (Inr (), self\<lparr>account := a\<rparr>, tr @ [GetAccount (account_id self)]))"

text \<open>Line 223: the text built from \<open>result["result"]\<close>, handed to \<open>json.loads\<close>.\<close>

definition decode_result ::
  "('sg, 'act) modules \<Rightarrow> pyval \<Rightarrow> ('sg, 'act) event list \<Rightarrow>
   (exc + pyval) \<times> ('sg, 'act) event list" where
  "decode_result lib result tr =
     (case py_getitem result (lit ''result'') of
        Inl e \<Rightarrow> (Inl e, tr)
      | Inr r \<Rightarrow>
          (case py_iter r of
             Inl e \<Rightarrow> (Inl e, tr)
           | Inr xs \<Rightarrow>
               (case join_chr xs of
                  Inl e \<Rightarrow> (Inl e, tr)
                | Inr text \<Rightarrow>
                    (case json_loads lib text of
                       Inl e \<Rightarrow> (Inl e, tr @ [JsonLoads text])
                     | Inr v \<Rightarrow> (py_setitem result (lit ''result'') v, tr @ [JsonLoads text])))))"

text \<open>\<open>Account.view_function\<close> (lines 218 to 224).\<close>

definition view_function ::
  "('sg, 'act) modules \<Rightarrow> ('sg, 'act) Account \<Rightarrow> ('sg, 'act) event list \<Rightarrow>
   pyval \<Rightarrow> pyval \<Rightarrow> pyval \<Rightarrow>
   (exc + pyval) \<times> ('sg, 'act) Account \<times> ('sg, 'act) event list" where
  "view_function lib self tr contract_id method_name args =
     (case json_dumps lib args of
        Inl e \<Rightarrow> (Inl e, self, tr @ [JsonDumps args])
      | Inr s \<Rightarrow>
          (case utf8 s of
             Inl e \<Rightarrow> (Inl e, self, tr @ [JsonDumps args])
           | Inr bs \<Rightarrow>
               (case view_call (provider self) (tr @ [JsonDumps args]) contract_id method_name bs of
                  Inl e \<Rightarrow> (Inl e, self, tr @ [JsonDumps args, ViewCall contract_id method_name bs])
                | Inr result \<Rightarrow>
                    (case py_contains (lit ''error'') result of
                       Inl e \<Rightarrow>
                         (Inl e, self, tr @ [JsonDumps args, ViewCall contract_id method_name bs])
                     | Inr True \<Rightarrow>
                         (case py_getitem result (lit ''error'') of
                            Inl e \<Rightarrow>
                              (Inl e, self,
                               tr @ [JsonDumps args, ViewCall contract_id method_name bs])
                          | Inr m \<Rightarrow>
                              (Inl (ViewFunctionError m), self,
                               tr @ [JsonDumps args, ViewCall contract_id method_name bs]))
                     | Inr False \<Rightarrow>
                         (case decode_result lib result
                                 (tr @ [JsonDumps args, ViewCall contract_id method_name bs]) of
                            (r, tr1) \<Rightarrow> (r, self, tr1))))))"

section \<open>Observations on accounts and traces\<close>

text \<open>The current nonce, \<open>self._access_key["nonce"]\<close>.\<close>

definition nonce :: "('sg, 'act) Account \<Rightarrow> exc + pyval" where
  "nonce self = py_getitem (access_key self) (lit ''nonce'')"

text \<open>The nonces handed to \<open>sign_and_serialize_transaction\<close>, in the order of the calls.\<close>

fun signed_nonces :: "('sg, 'act) event list \<Rightarrow> pyval list" where
  "signed_nonces [] = []"
| "signed_nonces (SignAndSerialize r n a h s # evs) = n # signed_nonces evs"
| "signed_nonces (ev # evs) = signed_nonces evs"

text \<open>The values stored into the nonce, in order.\<close>

fun nonce_stores :: "('sg, 'act) event list \<Rightarrow> pyval list" where
  "nonce_stores [] = []"
| "nonce_stores (NonceStore v # evs) = v # nonce_stores evs"
| "nonce_stores (ev # evs) = nonce_stores evs"

text \<open>The events of transaction assembly, of sending, of decoding and of printing.\<close>

fun is_assembly_event :: "('sg, 'act) event \<Rightarrow> bool" where
  "is_assembly_event (NonceStore v) = True"
| "is_assembly_event GetStatus = True"
| "is_assembly_event (B58Decode bs) = True"
| "is_assembly_event (SignAndSerialize r n a h s) = True"
| "is_assembly_event ev = False"

fun is_send_event :: "('sg, 'act) event \<Rightarrow> bool" where
  "is_send_event (SendTxAndWait bs t) = True"
| "is_send_event (SendTx bs) = True"
| "is_send_event ev = False"

fun is_json_loads :: "('sg, 'act) event \<Rightarrow> bool" where
  "is_json_loads (JsonLoads s) = True"
| "is_json_loads ev = False"


text \<open>What a view call may do: encode the arguments, ask the node, decode the answer.\<close>

fun is_view_event :: "('sg, 'act) event \<Rightarrow> bool" where
  "is_view_event (JsonDumps v) = True"
| "is_view_event (ViewCall c m bs) = True"
| "is_view_event (JsonLoads s) = True"
| "is_view_event ev = False"




section \<open>Submissions issued one at a time\<close>

text \<open>
  A caller issues submissions one after the other, each on the account and the trace the
  previous one left, whether it returned or raised. The events of each submission are
  kept apart.
\<close>

datatype 'act submission = Sync pystr 'act | Async pystr 'act

definition submit ::
  "('sg, 'act) modules \<Rightarrow> ('sg, 'act) Account \<Rightarrow> ('sg, 'act) event list \<Rightarrow> 'act submission \<Rightarrow>
   (exc + pyval) \<times> ('sg, 'act) Account \<times> ('sg, 'act) event list" where
  "submit lib self tr s =
     (case s of
        Sync receiver_id actions \<Rightarrow> sign_and_submit_tx lib self tr receiver_id actions
      | Async receiver_id actions \<Rightarrow> sign_and_submit_tx_async lib self tr receiver_id actions)"

fun run_submissions ::
  "('sg, 'act) modules \<Rightarrow> ('sg, 'act) Account \<Rightarrow> ('sg, 'act) event list \<Rightarrow>
   'act submission list \<Rightarrow> ('sg, 'act) Account \<times> ('sg, 'act) event list list" where
  "run_submissions lib self tr [] = (self, [])"
| "run_submissions lib self tr (s # ss) =
     (case submit lib self tr s of
        (r, self1, tr1) \<Rightarrow>
          (case run_submissions lib self1 tr1 ss of
             (self2, segs) \<Rightarrow> (self2, drop (length tr) tr1 # segs)))"

section \<open>A concrete node, signer and account\<close>

text \<open>
  A node whose status reports the block hash \<open>"3J98"\<close>, and whose answers to a waited
  submission, to an asynchronous submission and to a view call are given. The signer is
  a name and an action a name.
\<close>

definition node_status :: pyval where
  "node_status =
     PDict [(lit ''sync_info'', PDict [(lit ''latest_block_hash'', PStr (lit ''3J98''))])]"

definition node ::
  "(exc + pyval) \<Rightarrow> (exc + pyval) \<Rightarrow> (exc + pyval) \<Rightarrow> (exc + pyval) \<Rightarrow>
   (string, string) JsonProvider" where
  "node status_reply wait_reply send_reply view_reply =
     \<lparr> get_account = (\<lambda>tr a. Inr (PDict [(lit ''amount'', PStr (lit ''100''))])),
       get_status = (\<lambda>tr. status_reply),
       send_tx_and_wait = (\<lambda>tr bs t. wait_reply),
       send_tx = (\<lambda>tr bs. send_reply),
       view_call = (\<lambda>tr c m bs. view_reply) \<rparr>"

text \<open>
  Stand-ins for the imported modules: signing gives three bytes (or raises), the decoded
  block hash is two bytes, \<open>json.dumps\<close> gives \<open>{}\<close>, and \<open>json.loads\<close> reads the text
  \<open>1\<close> as the number one and rejects every other text.
\<close>

definition stub_modules ::
  "(exc + bytes) \<Rightarrow> (string, string) modules" where
  "stub_modules sign_reply =
     \<lparr> sign_and_serialize_transaction = (\<lambda>tr r n a h s. sign_reply),
       b58decode = (\<lambda>bs. Inr [7, 9]),
       json_dumps = (\<lambda>v. Inr (lit ''{}'')),
       json_loads = (\<lambda>s. if s = lit ''1'' then Inr (PInt 1)
                          else Inl (External (lit ''JSONDecodeError''))),
       repr_of = (\<lambda>v. lit ''?'') \<rparr>"

definition alice :: "(exc + pyval) \<Rightarrow> (exc + pyval) \<Rightarrow> (exc + pyval) \<Rightarrow> (exc + pyval) \<Rightarrow>
   (string, string) Account" where
  "alice status_reply wait_reply send_reply view_reply =
     \<lparr> provider = node status_reply wait_reply send_reply view_reply,
       signer = ''alice-key'',
       account_id = lit ''alice'',
       account = PDict [(lit ''amount'', PStr (lit ''7''))],
       access_key = PDict [(lit ''nonce'', PInt 5), (lit ''permission'', PStr (lit ''FullAccess''))] \<rparr>"

text \<open>
  An outcome tree with the given status: the transaction outcome logs one line, the
  first receipt two, the second none.
\<close>

definition logs_outcome :: "pyval list \<Rightarrow> pyval" where
  "logs_outcome logs = PDict [(lit ''outcome'', PDict [(lit ''logs'', PList logs)])]"

definition outcome_tree :: "pyval \<Rightarrow> pyval" where
  "outcome_tree st =
     PDict [(lit ''status'', st),
            (lit ''transaction_outcome'', logs_outcome [PStr (lit ''t1'')]),
            (lit ''receipts_outcome'',
               PList [logs_outcome [PStr (lit ''r1''), PStr (lit ''r2'')], logs_outcome []])]"

text \<open>A handle of 44 characters in the base58 alphabet.\<close>

definition handle44 :: pystr where
  "handle44 = lit ''9FtHUFBQsZ2MG77K3x3MJ9wjX3UT8zE1TczCrhZEcG8U''"

section \<open>Facts about the primitives and the observations\<close>

lemma map_of_dict_update: "map_of (dict_update k v d) k = Some v"
  by (induction d) auto

lemma getitem_Inr_dict: "py_getitem x k = Inr v \<Longrightarrow> \<exists>d. x = PDict d"
  by (cases x) auto

lemma signed_nonces_append: "signed_nonces (xs @ ys) = signed_nonces xs @ signed_nonces ys"
  by (induction xs rule: signed_nonces.induct) auto

lemma nonce_stores_append: "nonce_stores (xs @ ys) = nonce_stores xs @ nonce_stores ys"
  by (induction xs rule: nonce_stores.induct) auto

lemma signed_nonces_prints: "signed_nonces (map print_log logs) = []"
  by (induction logs) (auto simp: print_log_def)

lemma nonce_stores_prints: "nonce_stores (map print_log logs) = []"
  by (induction logs) (auto simp: print_log_def)


lemma assembly_prints: "filter is_assembly_event (map print_log ls) = []"
  by (induction ls) (auto simp: print_log_def)

section \<open>Facts about transaction assembly\<close>

lemma increment_nonce_int:
  assumes "nonce self = Inr (PInt n)"
  shows "\<exists>ak. increment_nonce self tr
            = (Inr (), self\<lparr>access_key := ak\<rparr>, tr @ [NonceStore (PInt (n + 1))])
          \<and> py_getitem ak (lit ''nonce'') = Inr (PInt (n + 1))"
proof -
  from assms obtain d where d: "access_key self = PDict d"
    unfolding nonce_def by (auto dest: getitem_Inr_dict)
  with assms show ?thesis
    unfolding nonce_def increment_nonce_def
    by (intro exI[of _ "PDict (dict_update (lit ''nonce'') (PInt (n + 1)) d)"])
       (simp add: map_of_dict_update split: option.splits)
qed

lemma fetch_block_hash_access_key [simp]:
  "fetch_block_hash lib (self\<lparr>access_key := ak\<rparr>) tr = fetch_block_hash lib self tr"
  by (simp add: fetch_block_hash_def)

lemma fetch_block_hash_trace:
  "fetch_block_hash lib self tr = (r, tr') \<Longrightarrow>
   \<exists>evs. tr' = tr @ evs \<and> signed_nonces evs = [] \<and> nonce_stores evs = []"
  unfolding fetch_block_hash_def by (auto split: sum.splits)


lemma fetch_block_hash_ok:
  assumes "get_status (provider self) tr = Inr st"
      and "py_getitem st (lit ''sync_info'') = Inr si"
      and "py_getitem si (lit ''latest_block_hash'') = Inr (PStr h)"
      and "utf8 h = Inr bs"
  shows "fetch_block_hash lib self tr = (b58decode lib bs, tr @ [GetStatus, B58Decode bs])"
  using assms by (simp add: fetch_block_hash_def)

text \<open>What \<open>sign_tx\<close> does when the nonce is an integer.\<close>

lemma sign_tx_int:
  assumes "nonce self = Inr (PInt n)"
  shows "\<exists>ak. py_getitem ak (lit ''nonce'') = Inr (PInt (n + 1)) \<and>
     sign_tx lib self tr r a =
       (case fetch_block_hash lib self (tr @ [NonceStore (PInt (n + 1))]) of
          (Inl e, tr2) \<Rightarrow> (Inl e, self\<lparr>access_key := ak\<rparr>, tr2)
        | (Inr bh, tr2) \<Rightarrow>
            (sign_and_serialize_transaction lib tr2 r (PInt (n + 1)) a bh (signer self),
             self\<lparr>access_key := ak\<rparr>,
             tr2 @ [SignAndSerialize r (PInt (n + 1)) a bh (signer self)]))"
proof -
  from increment_nonce_int[OF assms, of tr] obtain ak where
    inc: "increment_nonce self tr
            = (Inr (), self\<lparr>access_key := ak\<rparr>, tr @ [NonceStore (PInt (n + 1))])"
    and ak: "py_getitem ak (lit ''nonce'') = Inr (PInt (n + 1))" by blast
  show ?thesis
    by (rule exI[of _ ak]) (simp add: ak sign_tx_def inc split: prod.splits sum.splits)
qed

lemma sign_tx_effect:
  assumes "nonce self = Inr (PInt n)" and "sign_tx lib self tr r a = (res, self', tr')"
  shows "\<exists>ak evs. self' = self\<lparr>access_key := ak\<rparr> \<and> nonce self' = Inr (PInt (n + 1))
           \<and> tr' = tr @ evs \<and> nonce_stores evs = [PInt (n + 1)]
           \<and> (signed_nonces evs = [] \<or> signed_nonces evs = [PInt (n + 1)])"
proof -
  from sign_tx_int[OF assms(1), of lib tr r a] obtain ak where
    ak: "py_getitem ak (lit ''nonce'') = Inr (PInt (n + 1))"
    and eq: "sign_tx lib self tr r a =
       (case fetch_block_hash lib self (tr @ [NonceStore (PInt (n + 1))]) of
          (Inl e, tr2) \<Rightarrow> (Inl e, self\<lparr>access_key := ak\<rparr>, tr2)
        | (Inr bh, tr2) \<Rightarrow>
            (sign_and_serialize_transaction lib tr2 r (PInt (n + 1)) a bh (signer self),
             self\<lparr>access_key := ak\<rparr>,
             tr2 @ [SignAndSerialize r (PInt (n + 1)) a bh (signer self)]))" by blast
  obtain bh tr2 where f: "fetch_block_hash lib self (tr @ [NonceStore (PInt (n + 1))]) = (bh, tr2)"
    by (cases "fetch_block_hash lib self (tr @ [NonceStore (PInt (n + 1))])")
  from fetch_block_hash_trace[OF f] obtain evs where
    evs: "tr2 = (tr @ [NonceStore (PInt (n + 1))]) @ evs" "signed_nonces evs = []"
         "nonce_stores evs = []" by blast
  show ?thesis
    using assms(2) ak f evs unfolding eq nonce_def
    by (cases bh) (auto simp: signed_nonces_append nonce_stores_append)
qed


section \<open>Facts about the synchronous path\<close>

lemma log_outcomes_prints:
  "log_outcomes os tr = (r, tr') \<Longrightarrow> \<exists>ls. tr' = tr @ map print_log ls"
proof (induction os arbitrary: tr)
  case Nil
  then show ?case by simp
next
  case (Cons o1 os)
  show ?case
  proof (cases "outcome_logs o1")
    case (Inl e)
    with Cons.prems show ?thesis by simp
  next
    case (Inr logs)
    with Cons.prems have "log_outcomes os (tr @ map print_log logs) = (r, tr')" by simp
    from Cons.IH[OF this] obtain ls where "tr' = (tr @ map print_log logs) @ map print_log ls"
      by blast
    then have "tr' = tr @ map print_log (logs @ ls)" by simp
    then show ?thesis by blast
  qed
qed

text \<open>The loop over the outcomes adds printed lines only.\<close>

lemma surface_logs_prints:
  assumes "surface_logs result tr = (r, tr')"
  shows "\<exists>ls. tr' = tr @ map print_log ls"
proof -
  have triv: "\<exists>ls. tr = tr @ map print_log ls"
    by (rule exI[of _ "[]"]) simp
  show ?thesis
  proof (cases "py_getitem result (lit ''transaction_outcome'')")
    case (Inl e)
    with assms triv show ?thesis by (simp add: surface_logs_def)
  next
    case t: (Inr t)
    show ?thesis
    proof (cases "py_getitem result (lit ''receipts_outcome'')")
      case (Inl e)
      with assms t triv show ?thesis by (simp add: surface_logs_def)
    next
      case rv: (Inr rv)
      obtain e1 tr1 where l1: "log_outcomes [t] tr = (e1, tr1)" by (cases "log_outcomes [t] tr")
      from log_outcomes_prints[OF l1] obtain ls1 where ls1: "tr1 = tr @ map print_log ls1"
        by blast
      show ?thesis
      proof (cases e1)
        case (Some e)
        with assms t rv l1 have "tr' = tr1" by (simp add: surface_logs_def)
        with ls1 show ?thesis by blast
      next
        case None
        show ?thesis
        proof (cases "py_iter rv")
          case (Inl e)
          with assms t rv l1 None have "tr' = tr1" by (simp add: surface_logs_def)
          with ls1 show ?thesis by blast
        next
          case (Inr rs)
          with assms t rv l1 None have "log_outcomes rs tr1 = (r, tr')"
            by (simp add: surface_logs_def)
          from log_outcomes_prints[OF this] obtain ls2 where "tr' = tr1 @ map print_log ls2"
            by blast
          with ls1 have "tr' = tr @ map print_log (ls1 @ ls2)" by simp
          then show ?thesis by blast
        qed
      qed
    qed
  qed
qed

lemma surface_logs_trace:
  assumes "surface_logs result tr = (r, tr')"
  shows "\<exists>evs. tr' = tr @ evs \<and> signed_nonces evs = [] \<and> nonce_stores evs = []"
proof -
  from surface_logs_prints[OF assms] obtain ls where "tr' = tr @ map print_log ls" by blast
  then show ?thesis
    by (intro exI[of _ "map print_log ls"]) (simp add: signed_nonces_prints nonce_stores_prints)
qed


lemma sync_after_send:
  assumes "sign_tx lib self tr r a = (Inr stx, self1, tr1)"
      and "send_tx_and_wait (provider self1) tr1 stx 10 = Inr result"
      and "surface_logs result (tr1 @ [SendTxAndWait stx 10]) = (eo, tr2)"
  shows "sign_and_submit_tx lib self tr r a =
           ((case eo of Some e \<Rightarrow> Inl e | None \<Rightarrow> classify result), self1, tr2)"
  using assms by (simp add: sign_and_submit_tx_def split: option.splits)


section \<open>Facts about both submission methods\<close>

text \<open>What either submission method does after the assembly.\<close>

lemma after_sign_tx:
  assumes "sign_tx lib self tr r a = (res, self1, tr1)"
      and "f = sign_and_submit_tx \<or> f = sign_and_submit_tx_async"
  shows "fst (snd (f lib self tr r a)) = self1 \<and>
         (\<exists>evs. snd (snd (f lib self tr r a)) = tr1 @ evs \<and> filter is_assembly_event evs = [] \<and>
                (\<forall>e. res = Inl e \<longrightarrow> evs = [] \<and> fst (f lib self tr r a) = Inl e))"
proof (cases res)
  case (Inl e)
  with assms have "f lib self tr r a = (Inl e, self1, tr1)"
    by (auto simp: sign_and_submit_tx_def sign_and_submit_tx_async_def)
  with Inl show ?thesis by simp
next
  case (Inr stx)
  from assms(2) show ?thesis
  proof
    assume f: "f = sign_and_submit_tx"
    show ?thesis
    proof (cases "send_tx_and_wait (provider self1) tr1 stx 10")
      case (Inl e)
      with f assms(1) Inr have "f lib self tr r a = (Inl e, self1, tr1 @ [SendTxAndWait stx 10])"
        by (simp add: sign_and_submit_tx_def)
      with Inr show ?thesis by simp
    next
      case w: (Inr result)
      obtain eo tr2 where sl: "surface_logs result (tr1 @ [SendTxAndWait stx 10]) = (eo, tr2)"
        by (cases "surface_logs result (tr1 @ [SendTxAndWait stx 10])")
      from surface_logs_prints[OF sl] obtain ls where
        ls: "tr2 = (tr1 @ [SendTxAndWait stx 10]) @ map print_log ls" by blast
      from sync_after_send[OF _ w sl, of lib self tr r a] assms(1) Inr f
      have "fst (snd (f lib self tr r a)) = self1" "snd (snd (f lib self tr r a)) = tr2"
        by simp_all
      with ls Inr show ?thesis by (simp add: assembly_prints)
    qed
  next
    assume f: "f = sign_and_submit_tx_async"
    with assms(1) Inr have
      "fst (snd (f lib self tr r a)) = self1"
      "snd (snd (f lib self tr r a)) = tr1 @ [SendTx stx]"
      by (auto simp: sign_and_submit_tx_async_def split: sum.splits)
    with Inr show ?thesis by simp
  qed
qed

text \<open>One submission on an integer nonce: one store, at most one signing, both of the next value.\<close>

lemma submit_effect:
  assumes n: "nonce self = Inr (PInt n)" and s: "submit lib self tr sub = (res, self', tr')"
  shows "nonce self' = Inr (PInt (n + 1)) \<and>
         (\<exists>evs. tr' = tr @ evs \<and> nonce_stores evs = [PInt (n + 1)]
           \<and> (signed_nonces evs = [] \<or> signed_nonces evs = [PInt (n + 1)]))"
proof -
  obtain r a where sub: "sub = Sync r a \<or> sub = Async r a" by (cases sub) auto
  obtain res1 self1 tr1 where st: "sign_tx lib self tr r a = (res1, self1, tr1)"
    by (cases "sign_tx lib self tr r a")
  from sign_tx_effect[OF n st] obtain evs where
    e: "nonce self1 = Inr (PInt (n + 1))" "tr1 = tr @ evs" "nonce_stores evs = [PInt (n + 1)]"
       "signed_nonces evs = [] \<or> signed_nonces evs = [PInt (n + 1)]" by blast
  show ?thesis
  proof (cases res1)
    case (Inl err)
    with sub s st have "self' = self1" "tr' = tr1"
      by (auto simp: submit_def sign_and_submit_tx_def sign_and_submit_tx_async_def)
    with e show ?thesis by blast
  next
    case (Inr stx)
    from sub show ?thesis
    proof
      assume sy: "sub = Sync r a"
      show ?thesis
      proof (cases "send_tx_and_wait (provider self1) tr1 stx 10")
        case (Inl err)
        with sy s st Inr have "self' = self1" "tr' = tr1 @ [SendTxAndWait stx 10]"
          by (auto simp: submit_def sign_and_submit_tx_def)
        with e show ?thesis
          by (auto simp: signed_nonces_append nonce_stores_append)
      next
        case w: (Inr result)
        obtain eo tr2 where sl: "surface_logs result (tr1 @ [SendTxAndWait stx 10]) = (eo, tr2)"
          by (cases "surface_logs result (tr1 @ [SendTxAndWait stx 10])")
        from surface_logs_trace[OF sl] obtain evs2 where
          e2: "tr2 = (tr1 @ [SendTxAndWait stx 10]) @ evs2" "signed_nonces evs2 = []"
              "nonce_stores evs2 = []" by blast
        from sy s st Inr w sl have "self' = self1" "tr' = tr2"
          by (auto simp: submit_def sign_and_submit_tx_def split: option.splits)
        with e e2 show ?thesis
          by (auto simp: signed_nonces_append nonce_stores_append)
      qed
    next
      assume as: "sub = Async r a"
      with s st Inr have "self' = self1" "tr' = tr1 @ [SendTx stx]"
        by (auto simp: submit_def sign_and_submit_tx_async_def split: sum.splits if_splits)
      with e show ?thesis
        by (auto simp: signed_nonces_append nonce_stores_append)
    qed
  qed
qed

lemma run_submissions_effect:
  assumes "nonce self = Inr (PInt n)" and "run_submissions lib self tr subs = (self', segs)"
  shows "nonce self' = Inr (PInt (n + int (length subs))) \<and> length segs = length subs \<and>
         (\<forall>i<length subs. nonce_stores (segs ! i) = [PInt (n + 1 + int i)] \<and>
            (signed_nonces (segs ! i) = [] \<or> signed_nonces (segs ! i) = [PInt (n + 1 + int i)]))"
  using assms
proof (induction subs arbitrary: self tr n self' segs)
  case Nil
  then show ?case by simp
next
  case (Cons s ss)
  obtain r self1 tr1 where s1: "submit lib self tr s = (r, self1, tr1)"
    by (cases "submit lib self tr s")
  obtain self2 segs2 where r2: "run_submissions lib self1 tr1 ss = (self2, segs2)"
    by (cases "run_submissions lib self1 tr1 ss")
  from Cons.prems(2) s1 r2 have eq: "self' = self2" "segs = drop (length tr) tr1 # segs2"
    by auto
  from submit_effect[OF Cons.prems(1) s1] obtain evs where
    e: "nonce self1 = Inr (PInt (n + 1))" "tr1 = tr @ evs" "nonce_stores evs = [PInt (n + 1)]"
       "signed_nonces evs = [] \<or> signed_nonces evs = [PInt (n + 1)]" by blast
  from Cons.IH[OF e(1) r2] have ih:
    "nonce self2 = Inr (PInt (n + 1 + int (length ss)))" "length segs2 = length ss"
    "\<forall>i<length ss. nonce_stores (segs2 ! i) = [PInt (n + 1 + 1 + int i)] \<and>
        (signed_nonces (segs2 ! i) = [] \<or> signed_nonces (segs2 ! i) = [PInt (n + 1 + 1 + int i)])"
    by auto
  have hd: "drop (length tr) tr1 = evs" using e(2) by simp
  have "\<forall>i<length (s # ss). nonce_stores (segs ! i) = [PInt (n + 1 + int i)] \<and>
            (signed_nonces (segs ! i) = [] \<or> signed_nonces (segs ! i) = [PInt (n + 1 + int i)])"
  proof (intro allI impI)
    fix i assume "i < length (s # ss)"
    show "nonce_stores (segs ! i) = [PInt (n + 1 + int i)] \<and>
            (signed_nonces (segs ! i) = [] \<or> signed_nonces (segs ! i) = [PInt (n + 1 + int i)])"
    proof (cases i)
      case 0
      with eq hd e show ?thesis by simp
    next
      case (Suc j)
      with \<open>i < length (s # ss)\<close> have "j < length ss" by simp
      with ih(3) have A: "nonce_stores (segs2 ! j) = [PInt (n + 1 + 1 + int j)] \<and>
        (signed_nonces (segs2 ! j) = [] \<or> signed_nonces (segs2 ! j) = [PInt (n + 1 + 1 + int j)])"
        by blast
      have B: "n + 1 + int i = n + 1 + 1 + int j" using Suc by simp
      have C: "segs ! i = segs2 ! j" using eq Suc by simp
      show ?thesis unfolding B C by (rule A)
    qed
  qed
  moreover have "nonce self' = Inr (PInt (n + int (length (s # ss))))"
    using ih(1) eq by (simp add: add.assoc add.commute)
  moreover have "length segs = length (s # ss)" using ih(2) eq by simp
  ultimately show ?case by blast
qed

section \<open>Facts about view calls\<close>

text \<open>What \<open>view_function\<close> does once the node has answered.\<close>

lemma view_function_reply:
  assumes "json_dumps lib args = Inr s" and "utf8 s = Inr bs"
      and "view_call (provider self) (tr @ [JsonDumps args]) contract_id method_name bs = Inr reply"
  shows "view_function lib self tr contract_id method_name args =
           (case py_contains (lit ''error'') reply of
              Inl e \<Rightarrow> (Inl e, self, tr @ [JsonDumps args, ViewCall contract_id method_name bs])
            | Inr True \<Rightarrow>
                (case py_getitem reply (lit ''error'') of
                   Inl e \<Rightarrow> (Inl e, self, tr @ [JsonDumps args, ViewCall contract_id method_name bs])
                 | Inr m \<Rightarrow> (Inl (ViewFunctionError m), self,
                             tr @ [JsonDumps args, ViewCall contract_id method_name bs]))
            | Inr False \<Rightarrow>
                (fst (decode_result lib reply
                        (tr @ [JsonDumps args, ViewCall contract_id method_name bs])),
                 self,
                 snd (decode_result lib reply
                        (tr @ [JsonDumps args, ViewCall contract_id method_name bs]))))"
  using assms by (simp add: view_function_def split: sum.splits bool.splits prod.splits)

lemma decode_result_trace:
  "snd (decode_result lib reply tr) = tr \<or>
   (\<exists>text. snd (decode_result lib reply tr) = tr @ [JsonLoads text])"
  by (auto simp: decode_result_def split: sum.splits)

lemma view_function_trace:
  "\<exists>evs. snd (snd (view_function lib self tr c m args)) = tr @ evs \<and> list_all is_view_event evs"
proof (cases "json_dumps lib args")
  case (Inl e)
  then show ?thesis by (simp add: view_function_def)
next
  case s: (Inr s)
  show ?thesis
  proof (cases "utf8 s")
    case (Inl e)
    with s show ?thesis by (simp add: view_function_def)
  next
    case bs: (Inr bs)
    show ?thesis
    proof (cases "view_call (provider self) (tr @ [JsonDumps args]) c m bs")
      case (Inl e)
      with s bs show ?thesis by (simp add: view_function_def)
    next
      case (Inr reply)
      let ?tr = "tr @ [JsonDumps args, ViewCall c m bs]"
      from decode_result_trace[of lib reply ?tr]
      have "\<exists>evs. snd (decode_result lib reply ?tr) = tr @ evs \<and> list_all is_view_event evs"
        by auto
      then show ?thesis
        unfolding view_function_reply[OF s bs Inr]
        by (auto split: sum.splits bool.splits)
    qed
  qed
qed

lemma view_function_self: "fst (snd (view_function lib self tr c m args)) = self"
  by (simp add: view_function_def split: sum.splits bool.splits prod.splits)

lemma view_events_no_nonce:
  "list_all is_view_event evs \<Longrightarrow>
   nonce_stores evs = [] \<and> signed_nonces evs = [] \<and> filter is_assembly_event evs = [] \<and>
   filter is_send_event evs = []"
proof (induction evs)
  case Nil
  then show ?case by simp
next
  case (Cons ev evs)
  then show ?case by (cases ev) auto
qed



section \<open>Properties of the account operations\<close>

text \<open>
  C1. Submissions are issued one at a time against one account whose nonce is the integer
  \<open>n\<close>, in any mix of the two submission methods. Submission \<open>i\<close> (counted from 0) stores
  exactly one new nonce, \<open>n + 1 + i\<close>, and if it reaches
  \<open>sign_and_serialize_transaction\<close> it passes exactly that value; so the nonce passed by
  one submission is strictly less than the nonce passed by the next, and after \<open>N\<close>
  submissions the nonce is \<open>n + N\<close>.
\<close>

theorem nonces_strictly_increase:
  assumes "nonce self = Inr (PInt n)"
      and "run_submissions lib self tr subs = (self', segs)"
  shows "length segs = length subs \<and>
         nonce self' = Inr (PInt (n + int (length subs))) \<and>
         (\<forall>i<length subs. nonce_stores (segs ! i) = [PInt (n + 1 + int i)] \<and>
            (signed_nonces (segs ! i) = [] \<or> signed_nonces (segs ! i) = [PInt (n + 1 + int i)])) \<and>
         (\<forall>i a b. Suc i < length subs \<and> a \<in> set (signed_nonces (segs ! i)) \<and>
            b \<in> set (signed_nonces (segs ! Suc i)) \<longrightarrow>
            (\<exists>x y. a = PInt x \<and> b = PInt y \<and> x < y))"
proof -
  from run_submissions_effect[OF assms] have
    len: "length segs = length subs"
    and fin: "nonce self' = Inr (PInt (n + int (length subs)))"
    and each: "\<forall>i<length subs. nonce_stores (segs ! i) = [PInt (n + 1 + int i)] \<and>
            (signed_nonces (segs ! i) = [] \<or> signed_nonces (segs ! i) = [PInt (n + 1 + int i)])"
    by blast+
  have "\<exists>x y. a = PInt x \<and> b = PInt y \<and> x < y"
    if "Suc i < length subs" "a \<in> set (signed_nonces (segs ! i))"
       "b \<in> set (signed_nonces (segs ! Suc i))" for i a b
  proof -
    from that(1) have "i < length subs" by simp
    with each that(2) have a: "a = PInt (n + 1 + int i)" by fastforce
    from each that(1,3) have b: "b = PInt (n + 1 + int (Suc i))" by fastforce
    show ?thesis using a b by simp
  qed
  with len fin each show ?thesis by blast
qed

theorem nonces_strictly_increase_witness:
  "nonce (alice (Inr node_status) (Inr (outcome_tree (PDict []))) (Inr (PStr (lit ''h''))) (Inl TypeError))
     = Inr (PInt 5) \<and>
   map signed_nonces
     (snd (run_submissions (stub_modules (Inr [1, 2, 3]))
        (alice (Inr node_status) (Inr (outcome_tree (PDict []))) (Inr (PStr (lit ''h''))) (Inl TypeError))
        [] [Sync (lit ''bob'') ''transfer'', Async (lit ''contract'') ''call'']))
     = [[PInt 6], [PInt 7]] \<and>
   nonce (fst (run_submissions (stub_modules (Inr [1, 2, 3]))
        (alice (Inr node_status) (Inr (outcome_tree (PDict []))) (Inr (PStr (lit ''h''))) (Inl TypeError))
        [] [Sync (lit ''bob'') ''transfer'', Async (lit ''contract'') ''call'']))
     = Inr (PInt 7)"
proof -
  let ?a = "alice (Inr node_status) (Inr (outcome_tree (PDict []))) (Inr (PStr (lit ''h''))) (Inl TypeError)"
  let ?run = "run_submissions (stub_modules (Inr [1, 2, 3])) ?a []
                [Sync (lit ''bob'') ''transfer'', Async (lit ''contract'') ''call'']"
  have n: "nonce ?a = Inr (PInt 5)"
    by (simp add: nonce_def alice_def lit_def)
  have r: "?run = (fst ?run, snd ?run)" by simp
  have sn: "map signed_nonces (snd ?run) = [[PInt 6], [PInt 7]]"
    by (simp add: submit_def sign_and_submit_tx_def sign_and_submit_tx_async_def sign_tx_def
        increment_nonce_def fetch_block_hash_def alice_def node_def stub_modules_def
        node_status_def outcome_tree_def logs_outcome_def surface_logs_def outcome_logs_def
        classify_def print_log_def utf8_cp_def lit_def)
  from nonces_strictly_increase[OF n r] sn n show ?thesis by simp
qed



text \<open>
  C3. An asynchronous submission to a node whose \<open>send_tx\<close> answers with a handle of 44
  base58 characters: the call does not return the handle, it raises \<open>TransactionError\<close>
  with the handle quoted in the message, after the transaction was signed and sent.
\<close>

theorem async_handle_of_44_characters_raises:
  "length handle44 = 44 \<and>
   sign_and_submit_tx_async (stub_modules (Inr [1, 2, 3]))
     (alice (Inr node_status) (Inr PNone) (Inr (PStr handle44)) (Inr PNone))
     [] (lit ''contract'') ''function_call''
   = (Inl (TransactionError
        (PStr (lit ''Unable to sign and submit transaction. tx_hash is '' @ [34] @ handle44 @ [34]))),
      (alice (Inr node_status) (Inr PNone) (Inr (PStr handle44)) (Inr PNone))
        \<lparr>access_key := PDict [(lit ''nonce'', PInt 6), (lit ''permission'', PStr (lit ''FullAccess''))]\<rparr>,
      [NonceStore (PInt 6), GetStatus, B58Decode [51, 74, 57, 56],
       SignAndSerialize (lit ''contract'') (PInt 6) ''function_call'' [7, 9] ''alice-key'',
       SendTx [1, 2, 3]])"
proof -
  have l: "length handle44 = 44" by (simp add: handle44_def lit_def)
  have "py_len (PStr handle44) = Inr 44" using l by simp
  then show ?thesis using l
    by (simp add: sign_and_submit_tx_async_def sign_tx_def increment_nonce_def fetch_block_hash_def
        unable_message_def format_value_def alice_def node_def stub_modules_def node_status_def
        utf8_cp_def lit_def)
qed

text \<open>
  C4. In both submission methods, on an integer nonce \<open>n\<close> and a node that reports a
  block hash \<open>h\<close> whose bytes base58 decodes to \<open>raw\<close>: the first four events of the call
  are the store of \<open>n + 1\<close> into the nonce, the status request, the base58 decoding of the
  UTF-8 bytes of \<open>h\<close>, and the call of \<open>sign_and_serialize_transaction\<close> with the
  receiver, \<open>n + 1\<close>, the actions, \<open>raw\<close> and the signer; the call has no other assembly
  event, and the nonce afterwards is \<open>n + 1\<close>.
\<close>

theorem assembly_steps_in_order:
  assumes "nonce self = Inr (PInt n)"
      and "get_status (provider self) (tr @ [NonceStore (PInt (n + 1))]) = Inr st"
      and "py_getitem st (lit ''sync_info'') = Inr si"
      and "py_getitem si (lit ''latest_block_hash'') = Inr (PStr h)"
      and "utf8 h = Inr bs"
      and "b58decode lib bs = Inr raw"
      and "f = sign_and_submit_tx \<or> f = sign_and_submit_tx_async"
  shows "take 4 (drop (length tr) (snd (snd (f lib self tr receiver_id actions)))) =
           [NonceStore (PInt (n + 1)), GetStatus, B58Decode bs,
            SignAndSerialize receiver_id (PInt (n + 1)) actions raw (signer self)] \<and>
         filter is_assembly_event (drop (length tr) (snd (snd (f lib self tr receiver_id actions)))) =
           [NonceStore (PInt (n + 1)), GetStatus, B58Decode bs,
            SignAndSerialize receiver_id (PInt (n + 1)) actions raw (signer self)] \<and>
         nonce (fst (snd (f lib self tr receiver_id actions))) = Inr (PInt (n + 1))"
proof -
  let ?tr1 = "tr @ [NonceStore (PInt (n + 1))]"
  let ?sg = "SignAndSerialize receiver_id (PInt (n + 1)) actions raw (signer self)"
  from sign_tx_int[OF assms(1), of lib tr receiver_id actions] obtain ak where
    ak: "py_getitem ak (lit ''nonce'') = Inr (PInt (n + 1))"
    and eq: "sign_tx lib self tr receiver_id actions =
       (case fetch_block_hash lib self ?tr1 of
          (Inl e, tr2) \<Rightarrow> (Inl e, self\<lparr>access_key := ak\<rparr>, tr2)
        | (Inr bh, tr2) \<Rightarrow>
            (sign_and_serialize_transaction lib tr2 receiver_id (PInt (n + 1)) actions bh (signer self),
             self\<lparr>access_key := ak\<rparr>,
             tr2 @ [SignAndSerialize receiver_id (PInt (n + 1)) actions bh (signer self)]))" by blast
  have fb: "fetch_block_hash lib self ?tr1 = (Inr raw, ?tr1 @ [GetStatus, B58Decode bs])"
    using fetch_block_hash_ok[OF assms(2-5), of lib] assms(6) by simp
  have s: "sign_tx lib self tr receiver_id actions =
     (sign_and_serialize_transaction lib (?tr1 @ [GetStatus, B58Decode bs]) receiver_id
        (PInt (n + 1)) actions raw (signer self),
      self\<lparr>access_key := ak\<rparr>,
      tr @ [NonceStore (PInt (n + 1)), GetStatus, B58Decode bs, ?sg])"
    unfolding eq fb by simp
  from after_sign_tx[OF s assms(7)] obtain evs where
    a: "fst (snd (f lib self tr receiver_id actions)) = self\<lparr>access_key := ak\<rparr>"
    and t: "snd (snd (f lib self tr receiver_id actions))
              = (tr @ [NonceStore (PInt (n + 1)), GetStatus, B58Decode bs, ?sg]) @ evs"
    and n: "filter is_assembly_event evs = []" by blast
  show ?thesis unfolding a t using n ak by (simp add: nonce_def)
qed

theorem assembly_steps_in_order_witness:
  "take 4 (snd (snd (sign_and_submit_tx (stub_modules (Inr [1, 2, 3]))
       (alice (Inr node_status) (Inr (outcome_tree (PDict []))) (Inr PNone) (Inr PNone))
       [] (lit ''bob'') ''transfer''))) =
     [NonceStore (PInt 6), GetStatus, B58Decode [51, 74, 57, 56],
      SignAndSerialize (lit ''bob'') (PInt 6) ''transfer'' [7, 9] ''alice-key''] \<and>
   take 4 (snd (snd (sign_and_submit_tx_async (stub_modules (Inr [1, 2, 3]))
       (alice (Inr node_status) (Inr (outcome_tree (PDict []))) (Inr PNone) (Inr PNone))
       [] (lit ''bob'') ''transfer''))) =
     [NonceStore (PInt 6), GetStatus, B58Decode [51, 74, 57, 56],
      SignAndSerialize (lit ''bob'') (PInt 6) ''transfer'' [7, 9] ''alice-key'']"
proof -
  let ?lib = "stub_modules (Inr [1, 2, 3]) :: (string, string) modules"
  let ?a = "alice (Inr node_status) (Inr (outcome_tree (PDict []))) (Inr PNone) (Inr PNone)"
  have n: "nonce ?a = Inr (PInt 5)"
    by (simp add: nonce_def alice_def lit_def)
  have g: "get_status (provider ?a) ([] @ [NonceStore (PInt (5 + 1))]) = Inr node_status"
    by (simp add: alice_def node_def)
  have si: "py_getitem node_status (lit ''sync_info'')
              = Inr (PDict [(lit ''latest_block_hash'', PStr (lit ''3J98''))])"
    by (simp add: node_status_def lit_def)
  have h: "py_getitem (PDict [(lit ''latest_block_hash'', PStr (lit ''3J98''))])
             (lit ''latest_block_hash'') = Inr (PStr (lit ''3J98''))"
    by (simp add: lit_def)
  have u: "utf8 (lit ''3J98'') = Inr [51, 74, 57, 56]"
    by (simp add: lit_def utf8_cp_def)
  have b: "b58decode ?lib [51, 74, 57, 56] = Inr [7, 9]"
    by (simp add: stub_modules_def)
  have s: "signer ?a = ''alice-key''" by (simp add: alice_def)
  from assembly_steps_in_order[OF n g si h u b, of sign_and_submit_tx "lit ''bob''" "''transfer''"]
       assembly_steps_in_order[OF n g si h u b, of sign_and_submit_tx_async "lit ''bob''" "''transfer''"]
  show ?thesis by (simp add: s)
qed

text \<open>
  C5. Once the node has answered a view call: if the answer is a dictionary with an
  \<open>error\<close> entry, \<open>view_function\<close> raises \<open>ViewFunctionError\<close> with that entry's value and
  the call ends with the request, with no call of \<open>json.loads\<close>; and whenever
  \<open>json.loads\<close> is called, \<open>"error" in result\<close> was false.
\<close>

theorem view_error_not_decoded:
  assumes "json_dumps lib args = Inr s" and "utf8 s = Inr bs"
      and "view_call (provider self) (tr @ [JsonDumps args]) contract_id method_name bs = Inr reply"
  shows "(\<forall>d msg. reply = PDict d \<and> map_of d (lit ''error'') = Some msg \<longrightarrow>
            view_function lib self tr contract_id method_name args =
              (Inl (ViewFunctionError msg), self,
               tr @ [JsonDumps args, ViewCall contract_id method_name bs])) \<and>
         (filter is_json_loads
            (drop (length tr) (snd (snd (view_function lib self tr contract_id method_name args))))
            \<noteq> [] \<longrightarrow> py_contains (lit ''error'') reply = Inr False)"
proof (intro conjI allI impI)
  fix d msg assume a: "reply = PDict d \<and> map_of d (lit ''error'') = Some msg"
  then have "lit ''error'' \<in> fst ` set d" by (force dest: map_of_SomeD)
  with a show "view_function lib self tr contract_id method_name args =
              (Inl (ViewFunctionError msg), self,
               tr @ [JsonDumps args, ViewCall contract_id method_name bs])"
    unfolding view_function_reply[OF assms] by simp
next
  assume a: "filter is_json_loads
            (drop (length tr) (snd (snd (view_function lib self tr contract_id method_name args))))
            \<noteq> []"
  show "py_contains (lit ''error'') reply = Inr False"
  proof (rule ccontr)
    assume "py_contains (lit ''error'') reply \<noteq> Inr False"
    then have "snd (snd (view_function lib self tr contract_id method_name args))
                 = tr @ [JsonDumps args, ViewCall contract_id method_name bs]"
      unfolding view_function_reply[OF assms]
      by (auto split: sum.splits bool.splits)
    with a show False by simp
  qed
qed

theorem view_error_not_decoded_witness:
  "view_function (stub_modules (Inr []))
     (alice (Inr node_status) (Inr PNone) (Inr PNone)
        (Inr (PDict [(lit ''error'', PStr (lit ''MethodNotFound''))])))
     [] (PStr (lit ''contract'')) (PStr (lit ''get_value'')) (PDict [])
   = (Inl (ViewFunctionError (PStr (lit ''MethodNotFound''))),
      alice (Inr node_status) (Inr PNone) (Inr PNone)
        (Inr (PDict [(lit ''error'', PStr (lit ''MethodNotFound''))])),
      [JsonDumps (PDict []), ViewCall (PStr (lit ''contract'')) (PStr (lit ''get_value'')) [123, 125]]) \<and>
   py_contains (lit ''error'') (PDict [(lit ''result'', PList [PInt 49])]) = Inr False"
proof -
  let ?lib = "stub_modules (Inr []) :: (string, string) modules"
  let ?c = "PStr (lit ''contract'')" and ?m = "PStr (lit ''get_value'')"
  have d: "json_dumps ?lib (PDict []) = Inr (lit ''{}'')"
    by (simp add: stub_modules_def)
  have u: "utf8 (lit ''{}'') = Inr [123, 125]"
    by (simp add: lit_def utf8_cp_def)
  have v: "view_call (provider (alice (Inr node_status) (Inr PNone) (Inr PNone) (Inr reply)))
             ([] @ [JsonDumps (PDict [])]) ?c ?m [123, 125] = Inr reply" for reply
    by (simp add: alice_def node_def)
  have m: "reply = PDict [(lit ''error'', PStr (lit ''MethodNotFound''))] \<and>
           map_of [(lit ''error'', PStr (lit ''MethodNotFound''))] (lit ''error'')
             = Some (PStr (lit ''MethodNotFound''))"
    if "reply = PDict [(lit ''error'', PStr (lit ''MethodNotFound''))]" for reply
    using that by simp
  have l: "filter is_json_loads (drop (length [])
             (snd (snd (view_function ?lib
                (alice (Inr node_status) (Inr PNone) (Inr PNone)
                   (Inr (PDict [(lit ''result'', PList [PInt 49])])))
                [] ?c ?m (PDict [])))))
           \<noteq> []"
    by (simp add: view_function_def decode_result_def stub_modules_def alice_def node_def
        utf8_cp_def lit_def)
  from view_error_not_decoded[OF d u v, THEN conjunct1, rule_format, OF m, OF refl]
       view_error_not_decoded[OF d u v, THEN conjunct2, rule_format, OF l]
  show ?thesis by simp
qed





text \<open>
  C8. In both submission methods, on an integer nonce \<open>n\<close>: if fetching and decoding
  the block hash raises \<open>e\<close>, or it succeeds and signing raises \<open>e\<close>, then the call raises
  \<open>e\<close>, the nonce afterwards is \<open>n + 1\<close> (one store, not undone), and nothing was sent.
\<close>

theorem failed_assembly_leaves_gap:
  assumes "nonce self = Inr (PInt n)"
      and "(\<exists>tr2. fetch_block_hash lib self (tr @ [NonceStore (PInt (n + 1))]) = (Inl e, tr2)) \<or>
           (\<exists>bh tr2. fetch_block_hash lib self (tr @ [NonceStore (PInt (n + 1))]) = (Inr bh, tr2) \<and>
              sign_and_serialize_transaction lib tr2 receiver_id (PInt (n + 1)) actions bh (signer self)
                = Inl e)"
      and "f = sign_and_submit_tx \<or> f = sign_and_submit_tx_async"
  shows "fst (f lib self tr receiver_id actions) = Inl e \<and>
         nonce (fst (snd (f lib self tr receiver_id actions))) = Inr (PInt (n + 1)) \<and>
         nonce_stores (drop (length tr) (snd (snd (f lib self tr receiver_id actions))))
           = [PInt (n + 1)] \<and>
         filter is_send_event (drop (length tr) (snd (snd (f lib self tr receiver_id actions)))) = []"
proof -
  let ?tr1 = "tr @ [NonceStore (PInt (n + 1))]"
  from sign_tx_int[OF assms(1), of lib tr receiver_id actions] obtain ak where
    ak: "py_getitem ak (lit ''nonce'') = Inr (PInt (n + 1))"
    and eq: "sign_tx lib self tr receiver_id actions =
       (case fetch_block_hash lib self ?tr1 of
          (Inl e, tr2) \<Rightarrow> (Inl e, self\<lparr>access_key := ak\<rparr>, tr2)
        | (Inr bh, tr2) \<Rightarrow>
            (sign_and_serialize_transaction lib tr2 receiver_id (PInt (n + 1)) actions bh (signer self),
             self\<lparr>access_key := ak\<rparr>,
             tr2 @ [SignAndSerialize receiver_id (PInt (n + 1)) actions bh (signer self)]))" by blast
  obtain rb tr2 where fb: "fetch_block_hash lib self ?tr1 = (rb, tr2)"
    by (cases "fetch_block_hash lib self ?tr1")
  from fetch_block_hash_trace[OF fb] obtain evs where
    evs: "tr2 = ?tr1 @ evs" "nonce_stores evs = []" by blast
  have ns: "filter is_send_event evs = []"
    using fb evs(1) unfolding fetch_block_hash_def by (auto split: sum.splits)
  from assms(2) fb obtain tr3 where
    s: "sign_tx lib self tr receiver_id actions = (Inl e, self\<lparr>access_key := ak\<rparr>, tr3)"
    and tr3: "tr3 = tr2 \<or> (\<exists>bh. tr3 = tr2 @ [SignAndSerialize receiver_id (PInt (n + 1)) actions bh (signer self)])"
    unfolding eq by auto
  from after_sign_tx[OF s assms(3)] have
    r: "fst (f lib self tr receiver_id actions) = Inl e"
    and a: "fst (snd (f lib self tr receiver_id actions)) = self\<lparr>access_key := ak\<rparr>"
    and t: "snd (snd (f lib self tr receiver_id actions)) = tr3" by auto
  show ?thesis unfolding r a t using tr3 evs ns ak
    by (auto simp: nonce_def nonce_stores_append)
qed

theorem failed_assembly_leaves_gap_witness:
  "sign_and_submit_tx (stub_modules (Inr [1, 2, 3]))
     (alice (Inl (External (lit ''timeout''))) (Inr PNone) (Inr PNone) (Inr PNone))
     [] (lit ''bob'') ''transfer''
   = (Inl (External (lit ''timeout'')),
      (alice (Inl (External (lit ''timeout''))) (Inr PNone) (Inr PNone) (Inr PNone))
        \<lparr>access_key := PDict [(lit ''nonce'', PInt 6), (lit ''permission'', PStr (lit ''FullAccess''))]\<rparr>,
      [NonceStore (PInt 6), GetStatus]) \<and>
   fst (sign_and_submit_tx_async (stub_modules (Inl (External (lit ''bad key''))))
     (alice (Inr node_status) (Inr PNone) (Inr PNone) (Inr PNone))
     [] (lit ''bob'') ''transfer'') = Inl (External (lit ''bad key'')) \<and>
   nonce (fst (snd (sign_and_submit_tx_async (stub_modules (Inl (External (lit ''bad key''))))
     (alice (Inr node_status) (Inr PNone) (Inr PNone) (Inr PNone))
     [] (lit ''bob'') ''transfer''))) = Inr (PInt 6)"
proof -
  let ?a1 = "alice (Inl (External (lit ''timeout''))) (Inr PNone) (Inr PNone) (Inr PNone)"
  let ?l1 = "stub_modules (Inr [1, 2, 3]) :: (string, string) modules"
  let ?a2 = "alice (Inr node_status) (Inr PNone) (Inr PNone) (Inr PNone)"
  let ?l2 = "stub_modules (Inl (External (lit ''bad key''))) :: (string, string) modules"
  have n1: "nonce ?a1 = Inr (PInt 5)" and n2: "nonce ?a2 = Inr (PInt 5)"
    by (simp_all add: nonce_def alice_def lit_def)
  have h1: "(\<exists>tr2. fetch_block_hash ?l1 ?a1 ([] @ [NonceStore (PInt (5 + 1))])
                = (Inl (External (lit ''timeout'')), tr2)) \<or>
           (\<exists>bh tr2. fetch_block_hash ?l1 ?a1 ([] @ [NonceStore (PInt (5 + 1))]) = (Inr bh, tr2) \<and>
              sign_and_serialize_transaction ?l1 tr2 (lit ''bob'') (PInt (5 + 1)) ''transfer'' bh (signer ?a1)
                = Inl (External (lit ''timeout'')))"
    by (simp add: fetch_block_hash_def alice_def node_def)
  have h2: "(\<exists>tr2. fetch_block_hash ?l2 ?a2 ([] @ [NonceStore (PInt (5 + 1))])
                = (Inl (External (lit ''bad key'')), tr2)) \<or>
           (\<exists>bh tr2. fetch_block_hash ?l2 ?a2 ([] @ [NonceStore (PInt (5 + 1))]) = (Inr bh, tr2) \<and>
              sign_and_serialize_transaction ?l2 tr2 (lit ''bob'') (PInt (5 + 1)) ''transfer'' bh (signer ?a2)
                = Inl (External (lit ''bad key'')))"
    by (simp add: fetch_block_hash_def alice_def node_def node_status_def stub_modules_def
        utf8_cp_def lit_def)
  have e1: "sign_and_submit_tx ?l1 ?a1 [] (lit ''bob'') ''transfer''
   = (Inl (External (lit ''timeout'')),
      ?a1\<lparr>access_key := PDict [(lit ''nonce'', PInt 6), (lit ''permission'', PStr (lit ''FullAccess''))]\<rparr>,
      [NonceStore (PInt 6), GetStatus])"
    by (simp add: sign_and_submit_tx_def sign_tx_def increment_nonce_def fetch_block_hash_def
        alice_def node_def lit_def)
  from failed_assembly_leaves_gap[OF n1 h1, of sign_and_submit_tx]
       failed_assembly_leaves_gap[OF n2 h2, of sign_and_submit_tx_async] e1
  show ?thesis by simp
qed

text \<open>
  C9. Whatever \<open>view_function\<close> returns or raises, the account after the call is the
  account before it, and the call's events are only the encoding of the arguments, the
  view request and the decoding: no store into the nonce, no signing, no assembly event.
\<close>

theorem view_function_frame:
  "fst (snd (view_function lib self tr contract_id method_name args)) = self \<and>
   list_all is_view_event
     (drop (length tr) (snd (snd (view_function lib self tr contract_id method_name args)))) \<and>
   nonce_stores
     (drop (length tr) (snd (snd (view_function lib self tr contract_id method_name args)))) = [] \<and>
   signed_nonces
     (drop (length tr) (snd (snd (view_function lib self tr contract_id method_name args)))) = [] \<and>
   filter is_assembly_event
     (drop (length tr) (snd (snd (view_function lib self tr contract_id method_name args)))) = []"
proof -
  from view_function_trace[of lib self tr contract_id method_name args] obtain evs where
    evs: "snd (snd (view_function lib self tr contract_id method_name args)) = tr @ evs"
         "list_all is_view_event evs" by blast
  show ?thesis unfolding evs(1) using evs(2) view_events_no_nonce[OF evs(2)]
    by (simp add: view_function_self)
qed

theorem view_function_frame_witness:
  "fst (snd (view_function (stub_modules (Inr []))
     (alice (Inr node_status) (Inr PNone) (Inr PNone)
        (Inr (PDict [(lit ''result'', PList [PInt 49])])))
     [] (PStr (lit ''contract'')) (PStr (lit ''get_value'')) (PDict [])))
   = alice (Inr node_status) (Inr PNone) (Inr PNone) (Inr (PDict [(lit ''result'', PList [PInt 49])])) \<and>
   snd (snd (view_function (stub_modules (Inr []))
     (alice (Inr node_status) (Inr PNone) (Inr PNone)
        (Inr (PDict [(lit ''result'', PList [PInt 49])])))
     [] (PStr (lit ''contract'')) (PStr (lit ''get_value'')) (PDict [])))
   = [JsonDumps (PDict []), ViewCall (PStr (lit ''contract'')) (PStr (lit ''get_value'')) [123, 125],
      JsonLoads (lit ''1'')]"
proof -
  have "snd (snd (view_function (stub_modules (Inr []))
     (alice (Inr node_status) (Inr PNone) (Inr PNone)
        (Inr (PDict [(lit ''result'', PList [PInt 49])])))
     [] (PStr (lit ''contract'')) (PStr (lit ''get_value'')) (PDict [])))
   = [JsonDumps (PDict []), ViewCall (PStr (lit ''contract'')) (PStr (lit ''get_value'')) [123, 125],
      JsonLoads (lit ''1'')]"
    by (simp add: view_function_def decode_result_def stub_modules_def alice_def node_def
        utf8_cp_def lit_def)
  with view_function_frame[of "stub_modules (Inr [])"
      "alice (Inr node_status) (Inr PNone) (Inr PNone) (Inr (PDict [(lit ''result'', PList [PInt 49])]))"
      "[]" "PStr (lit ''contract'')" "PStr (lit ''get_value'')" "PDict []"]
  show ?thesis by simp
qed

text \<open>
  C10. After \<open>fetch_state\<close> the provider, the signer, the account id and the access key
  (so the nonce) are what they were; only the cached account state may differ, and it is
  what \<open>get_account\<close> returned for the account id (or the old one if \<open>get_account\<close>
  raised); the call's only event is that request.
\<close>

theorem fetch_state_frame:
  "provider (fst (snd (fetch_state self tr))) = provider self \<and>
   signer (fst (snd (fetch_state self tr))) = signer self \<and>
   account_id (fst (snd (fetch_state self tr))) = account_id self \<and>
   access_key (fst (snd (fetch_state self tr))) = access_key self \<and>
   nonce (fst (snd (fetch_state self tr))) = nonce self \<and>
   fst (snd (fetch_state self tr)) = self\<lparr>account := account (fst (snd (fetch_state self tr)))\<rparr> \<and>
   account (fst (snd (fetch_state self tr))) =
     (case get_account (provider self) tr (account_id self) of
        Inl e \<Rightarrow> account self
      | Inr a \<Rightarrow> a) \<and>
   snd (snd (fetch_state self tr)) = tr @ [GetAccount (account_id self)]"
  by (simp add: fetch_state_def nonce_def split: sum.splits)

theorem fetch_state_frame_witness:
  "account (fst (snd (fetch_state
      (alice (Inr node_status) (Inr PNone) (Inr PNone) (Inr PNone)) [])))
     = PDict [(lit ''amount'', PStr (lit ''100''))] \<and>
   nonce (fst (snd (fetch_state
      (alice (Inr node_status) (Inr PNone) (Inr PNone) (Inr PNone)) [])))
     = Inr (PInt 5) \<and>
   snd (snd (fetch_state (alice (Inr node_status) (Inr PNone) (Inr PNone) (Inr PNone)) []))
     = [GetAccount (lit ''alice'')]"
  using fetch_state_frame[of "alice (Inr node_status) (Inr PNone) (Inr PNone) (Inr PNone)" "[]"]
  by (simp add: alice_def node_def nonce_def lit_def)

end
